theory Spec2Isabelle
  imports Main
begin

section \<open>Data model\<close>

text \<open>
  The tracker compares tracked objects by identity only, so the tracked set, \<open>current\<close>
  and the attached properties hold identities. An object as a method receives it is its
  identity together with what can be read from it at the time of the call: the
  \<open>isDisposed\<close> flag, which \<open>add\<close> looks at, whether its node holds the focus, which
  only the focus tracker of the wrapper looks at, and the rest of its state, which only
  the \<open>name\<close> and \<open>args\<close> functions of the restore options read (so the same object
  can compute another name at a later call). JSON payloads are opaque to the tracker and
  are kept as strings.
\<close>

type_synonym obj = nat
type_synonym json = string

record disposable =
  ident :: obj
  obj_isDisposed :: bool
  obj_hasFocus :: bool
  content :: json

datatype error = Error string

text \<open>
  A promise of a collaborator is represented by the way it settles. A promise that never
  settles is not represented: every statement below about an asynchronous operation is
  about the run in which the promises it awaits have settled. An asynchronous method of
  the tracker is run to its end in one step; what other callers do between two of its
  \<open>await\<close>s is outside the model.
\<close>

datatype 'a promise = Fulfilled 'a | Rejected error

text \<open>
  The listing of a connector: parallel arrays. A value is \<open>None\<close> when the array holds
  \<open>undefined\<close> there, \<open>Some None\<close> for an object without a \<open>data\<close> field and
  \<open>Some (Some d)\<close> for \<open>{data: d}\<close>.
\<close>

record listing =
  ids :: "string list"
  vals :: "json option option list"

text \<open>
  The restore options. The connector and the command registry are collaborators; each of
  their methods is given by the way its promise settles for the arguments of the call.
  \<open>opt_when\<close> is \<open>None\<close> when \<open>when\<close> is absent, a one-element list for a single promise.
\<close>

record restore_options =
  command :: string
  opt_name :: "disposable \<Rightarrow> string option"
  opt_args :: "disposable \<Rightarrow> json"
  opt_when :: "json promise list option"
  connector_list :: "string \<Rightarrow> listing promise"
  connector_save :: "string \<Rightarrow> json \<Rightarrow> json promise"
  connector_remove :: "string \<Rightarrow> json promise"
  registry_execute :: "string \<Rightarrow> json \<Rightarrow> json promise"

text \<open>Calls made on the collaborators, in the order they are issued.\<close>

datatype call =
  ConnectorList string
| ConnectorSave string json
| ConnectorRemove string
| RegistryExecute string json

text \<open>
  The tracker. The three signals are the sequences of values they have emitted.
  \<open>injectedProperty\<close> and \<open>nameProperty\<close> are the two attached properties of the
  private namespace, with their defaults \<open>false\<close> and the empty string.
  \<open>disposedConnections\<close> holds the objects whose \<open>disposed\<close> signal is connected to
  the tracker's \<open>_onInstanceDisposed\<close>.
\<close>

record tracker =
  namespace :: string
  added :: "obj list"
  current :: "obj option"
  currentChanged :: "obj option list"
  hasRestored :: bool
  instances :: "obj list"
  isDisposed :: bool
  restoreOptions :: "restore_options option"
  restored :: bool
  updated :: "obj list"
  injectedProperty :: "obj \<Rightarrow> bool"
  nameProperty :: "obj \<Rightarrow> string"
  disposedConnections :: "obj list"
  calls :: "call list"
  console :: "string list"

definition new_tracker :: "string \<Rightarrow> tracker" where
  "new_tracker ns =
     \<lparr> namespace = ns, added = [], current = None, currentChanged = [],
       hasRestored = False, instances = [], isDisposed = False,
       restoreOptions = None, restored = False, updated = [],
       injectedProperty = (\<lambda>_. False), nameProperty = (\<lambda>_. []),
       disposedConnections = [], calls = [], console = [] \<rparr>"

section \<open>InstanceTracker\<close>

definition has :: "tracker \<Rightarrow> obj \<Rightarrow> bool" where
  "has t obj = (obj \<in> set (instances t))"

definition size_t :: "tracker \<Rightarrow> nat" where
  "size_t t = length (instances t)"

text \<open>A string is truthy when it is neither \<open>null\<close> nor empty.\<close>

fun truthy :: "string option \<Rightarrow> bool" where
  "truthy None = False"
| "truthy (Some s) = (s \<noteq> [])"

definition keyed :: "tracker \<Rightarrow> string option \<Rightarrow> string" where
  "keyed t objName = namespace t @ '':'' @ (case objName of None \<Rightarrow> [] | Some s \<Rightarrow> s)"

text \<open>The setter of \<open>current\<close>. \<open>None\<close> is \<open>null\<close>, which the set never holds.\<close>

definition set_current :: "obj option \<Rightarrow> tracker \<Rightarrow> tracker" where
  "set_current obj t =
     (if current t = obj then t
      else case obj of
        None \<Rightarrow> t
      | Some x \<Rightarrow>
          if has t x
          then t\<lparr> current := Some x, currentChanged := currentChanged t @ [Some x] \<rparr>
          else t)"

definition connect_disposed :: "obj \<Rightarrow> tracker \<Rightarrow> tracker" where
  "connect_disposed obj t =
     (if obj \<in> set (disposedConnections t) then t
      else t\<lparr> disposedConnections := disposedConnections t @ [obj] \<rparr>)"

definition add :: "disposable \<Rightarrow> tracker \<Rightarrow> unit promise \<times> tracker" where
  "add d t =
     (let obj = ident d in
      if obj_isDisposed d then
        (Rejected (Error ''A disposed object cannot be added.''),
         t\<lparr> console := console t @ [''A disposed object cannot be added.''] \<rparr>)
      else if has t obj then
        (Rejected (Error ''This object already exists in the tracker.''),
         t\<lparr> console := console t @ [''This object already exists in the tracker.''] \<rparr>)
      else
        let t1 = connect_disposed obj (t\<lparr> instances := instances t @ [obj] \<rparr>) in
        if injectedProperty t1 obj then (Fulfilled (), t1)
        else
          case restoreOptions t1 of
            None \<Rightarrow> (Fulfilled (), t1\<lparr> added := added t1 @ [obj] \<rparr>)
          | Some r \<Rightarrow>
              let objName = opt_name r d in
              if truthy objName then
                let name = keyed t1 objName;
                    data = opt_args r d;
                    t2 = t1\<lparr> nameProperty := (nameProperty t1)(obj := name),
                             calls := calls t1 @ [ConnectorSave name data] \<rparr>
                in case connector_save r name data of
                     Rejected e \<Rightarrow> (Rejected e, t2)
                   | Fulfilled _ \<Rightarrow> (Fulfilled (), t2\<lparr> added := added t2 @ [obj] \<rparr>)
              else (Fulfilled (), t1\<lparr> added := added t1 @ [obj] \<rparr>))"

definition dispose :: "tracker \<Rightarrow> tracker" where
  "dispose t =
     (if isDisposed t then t
      else t\<lparr> current := None, instances := [], isDisposed := True,
               disposedConnections := [] \<rparr>)"

definition find_t :: "(obj \<Rightarrow> bool) \<Rightarrow> tracker \<Rightarrow> obj option" where
  "find_t fn t = List.find fn (instances t)"

definition forEach :: "(obj \<Rightarrow> 'a) \<Rightarrow> tracker \<Rightarrow> 'a list" where
  "forEach fn t = map fn (instances t)"

definition filter_t :: "(obj \<Rightarrow> bool) \<Rightarrow> tracker \<Rightarrow> obj list" where
  "filter_t fn t = filter fn (instances t)"

definition inject :: "disposable \<Rightarrow> tracker \<Rightarrow> unit promise \<times> tracker" where
  "inject d t = add d (t\<lparr> injectedProperty := (injectedProperty t)(ident d := True) \<rparr>)"

text \<open>
  \<open>Promise.all\<close>: fulfilled with all the values when every promise is fulfilled,
  rejected otherwise. Which rejection it reports when several promises are rejected
  depends on the order in which they settle; the model reports the one of least index.
\<close>

fun promise_all :: "'a promise list \<Rightarrow> 'a list promise" where
  "promise_all [] = Fulfilled []"
| "promise_all (Fulfilled v # ps) =
     (case promise_all ps of
        Fulfilled vs \<Rightarrow> Fulfilled (v # vs)
      | Rejected e \<Rightarrow> Rejected e)"
| "promise_all (Rejected e # ps) = Rejected e"

text \<open>
  One entry of the listing, as the callback of \<open>saved.ids.map\<close> sees it: the identifier
  and its index. \<open>entry_args\<close> is \<open>value && value.data\<close>, with \<open>None\<close> for
  \<open>undefined\<close>; an index beyond the array of values reads \<open>undefined\<close>.
\<close>

definition entry_args :: "listing \<Rightarrow> nat \<Rightarrow> json option" where
  "entry_args saved index =
     (if index < length (vals saved)
      then (case vals saved ! index of None \<Rightarrow> None | Some v \<Rightarrow> v)
      else None)"

text \<open>The call the callback issues at once for an entry.\<close>

definition entry_call :: "restore_options \<Rightarrow> listing \<Rightarrow> string \<times> nat \<Rightarrow> call" where
  "entry_call options saved e =
     (case entry_args saved (snd e) of
        None \<Rightarrow> ConnectorRemove (fst e)
      | Some a \<Rightarrow> RegistryExecute (command options) a)"

text \<open>The call of the \<open>catch\<close> handler of an entry, issued when its command was rejected.\<close>

definition entry_catch :: "restore_options \<Rightarrow> listing \<Rightarrow> string \<times> nat \<Rightarrow> call list" where
  "entry_catch options saved e =
     (case entry_args saved (snd e) of
        None \<Rightarrow> []
      | Some a \<Rightarrow>
          (case registry_execute options (command options) a of
             Fulfilled _ \<Rightarrow> []
           | Rejected _ \<Rightarrow> [ConnectorRemove (fst e)]))"

text \<open>The promise the callback returns for an entry.\<close>

definition entry_promise :: "restore_options \<Rightarrow> listing \<Rightarrow> string \<times> nat \<Rightarrow> json promise" where
  "entry_promise options saved e =
     (case entry_args saved (snd e) of
        None \<Rightarrow> connector_remove options (fst e)
      | Some a \<Rightarrow>
          (case registry_execute options (command options) a of
             Fulfilled v \<Rightarrow> Fulfilled v
           | Rejected _ \<Rightarrow> connector_remove options (fst e)))"

definition entries :: "listing \<Rightarrow> (string \<times> nat) list" where
  "entries saved = zip (ids saved) [0 ..< length (ids saved)]"

text \<open>
  \<open>restore\<close>. The listing is requested first; the first \<open>Promise.all\<close> joins it with
  the promises of \<open>when\<close>. The callbacks of \<open>map\<close> run one after the other without
  suspending, so the first call of every entry is issued before any \<open>catch\<close> handler
  runs; the handlers are logged in the order of their entries.
\<close>

definition restore :: "restore_options \<Rightarrow> tracker \<Rightarrow> json list promise \<times> tracker" where
  "restore options t =
     (if hasRestored t then
        (Rejected (Error ''Instance tracker has already restored''), t)
      else
        let t1 = t\<lparr> hasRestored := True,
                     restoreOptions := Some options,
                     calls := calls t @ [ConnectorList (namespace t)] \<rparr>
        in case connector_list options (namespace t) of
             Rejected e \<Rightarrow> (Rejected e, t1)
           | Fulfilled saved \<Rightarrow>
               (case promise_all (case opt_when options of None \<Rightarrow> [] | Some w \<Rightarrow> w) of
                  Rejected e \<Rightarrow> (Rejected e, t1)
                | Fulfilled _ \<Rightarrow>
                    let es = entries saved;
                        t2 = t1\<lparr> calls := calls t1 @ map (entry_call options saved) es
                                             @ concat (map (entry_catch options saved) es) \<rparr>
                    in (case promise_all (map (entry_promise options saved) es) of
                          Rejected e \<Rightarrow> (Rejected e, t2)
                        | Fulfilled vs \<Rightarrow> (Fulfilled vs, t2\<lparr> restored := True \<rparr>))))"

text \<open>The name \<open>save\<close> computes, empty when the \<open>name\<close> function gives nothing.\<close>

definition newName_of :: "tracker \<Rightarrow> restore_options \<Rightarrow> disposable \<Rightarrow> string" where
  "newName_of t r d =
     (let objName = opt_name r d in if truthy objName then keyed t objName else [])"

definition save :: "disposable \<Rightarrow> tracker \<Rightarrow> unit promise \<times> tracker" where
  "save d t =
     (let obj = ident d;
          injected = injectedProperty t obj in
      case restoreOptions t of
        None \<Rightarrow> (Fulfilled (), t)
      | Some r \<Rightarrow>
          if \<not> has t obj \<or> injected then (Fulfilled (), t)
          else
            let oldName = nameProperty t obj;
                newName = newName_of t r d;
                stale = (oldName \<noteq> [] \<and> oldName \<noteq> newName);
                t1 = (if stale then t\<lparr> calls := calls t @ [ConnectorRemove oldName] \<rparr> else t)
            in (case (if stale then connector_remove r oldName else Fulfilled []) of
                  Rejected e \<Rightarrow> (Rejected e, t1)
                | Fulfilled _ \<Rightarrow>
                    (let t2 = t1\<lparr> nameProperty := (nameProperty t1)(obj := newName) \<rparr>;
                         data = opt_args r d;
                         t3 = (if newName \<noteq> []
                               then t2\<lparr> calls := calls t2 @ [ConnectorSave newName data] \<rparr>
                               else t2)
                     in (case (if newName \<noteq> [] then connector_save r newName data
                               else Fulfilled []) of
                           Rejected e \<Rightarrow> (Rejected e, t3)
                         | Fulfilled _ \<Rightarrow>
                             (Fulfilled (),
                              if oldName \<noteq> newName
                              then t3\<lparr> updated := updated t3 @ [obj] \<rparr>
                              else t3)))))"

text \<open>
  \<open>_onInstanceDisposed\<close>. The promise of the last \<open>connector.remove\<close> is discarded by
  \<open>void\<close>: the call is logged and the way it settles is never read.
\<close>

definition onInstanceDisposed :: "obj \<Rightarrow> tracker \<Rightarrow> tracker" where
  "onInstanceDisposed obj t =
     (let t1 = t\<lparr> instances := removeAll obj (instances t) \<rparr>;
          t2 = (if Some obj = current t1
                then t1\<lparr> current := None, currentChanged := currentChanged t1 @ [None] \<rparr>
                else t1)
      in if injectedProperty t2 obj then t2
         else
           case restoreOptions t2 of
             None \<Rightarrow> t2
           | Some r \<Rightarrow>
               let name = nameProperty t2 obj in
               if name \<noteq> [] then t2\<lparr> calls := calls t2 @ [ConnectorRemove name] \<rparr>
               else t2)"

text \<open>
  The \<open>disposed\<close> signal of an object reaches the tracker only while the object is
  connected to it.
\<close>

definition instance_disposed :: "obj \<Rightarrow> tracker \<Rightarrow> tracker" where
  "instance_disposed obj t =
     (if obj \<in> set (disposedConnections t) then onInstanceDisposed obj t else t)"

subsection \<open>Sequences of operations\<close>

datatype op =
  Add disposable
| Inject disposable
| SetCurrent "obj option"
| InstanceDisposed obj
| Dispose
| Save disposable
| Restore restore_options

fun step :: "op \<Rightarrow> tracker \<Rightarrow> tracker" where
  "step (Add d) t = snd (add d t)"
| "step (Inject d) t = snd (inject d t)"
| "step (SetCurrent obj) t = set_current obj t"
| "step (InstanceDisposed obj) t = instance_disposed obj t"
| "step Dispose t = dispose t"
| "step (Save d) t = snd (save d t)"
| "step (Restore options) t = snd (restore options t)"

fun run :: "op list \<Rightarrow> tracker \<Rightarrow> tracker" where
  "run [] t = t"
| "run (x # xs) t = run xs (step x t)"

text \<open>The invariant on \<open>current\<close>: null, or a member of the tracked set.\<close>

definition current_ok :: "tracker \<Rightarrow> bool" where
  "current_ok t = (case current t of None \<Rightarrow> True | Some c \<Rightarrow> has t c)"

section \<open>WidgetTracker\<close>

text \<open>
  The wrapper owns an InstanceTracker and a focus tracker. Both connect a slot to the
  \<open>disposed\<close> signal of a widget, and a signal calls its slots in the order in which
  they were connected: \<open>disposedSlots\<close> holds the connections of the two in that order.
  The three signals of the wrapper are the sequences of values they have emitted.
\<close>

text \<open>
  Modelled from the spec: the focus tracker is a collaborator, the tracker of the widget
  library, whose code is not under \<open>src/\<close>; it tracks on its own which registered
  widget holds the focus. It keeps the widgets registered with its \<open>add\<close>, those of them that have
  held the focus (\<open>focusHistory\<close>, the latest first) and its \<open>currentWidget\<close>, the widget
  that took the focus last. When a registered widget is disposed it forgets the widget,
  and if that widget was its \<open>currentWidget\<close> it moves to the widget that held the focus
  before, or to null. It emits \<open>currentChanged\<close> whenever its \<open>currentWidget\<close> changes.
\<close>

datatype slot = FocusSlot | InstanceSlot

record widget_tracker =
  instanceTracker :: tracker
  focusCurrentWidget :: "obj option"
  focusWidgets :: "obj list"
  focusHistory :: "obj list"
  focusDisposed :: bool
  disposedSlots :: "(obj \<times> slot) list"
  wt_currentChanged :: "obj option list"
  widgetAdded :: "obj list"
  widgetUpdated :: "obj list"
  wt_isDisposed :: bool

definition new_widget_tracker :: "string \<Rightarrow> widget_tracker" where
  "new_widget_tracker ns =
     \<lparr> instanceTracker = new_tracker ns, focusCurrentWidget = None, focusWidgets = [],
       focusHistory = [], focusDisposed = False, disposedSlots = [],
       wt_currentChanged = [], widgetAdded = [], widgetUpdated = [],
       wt_isDisposed = False \<rparr>"

definition currentWidget :: "widget_tracker \<Rightarrow> obj option" where
  "currentWidget w = current (instanceTracker w)"

text \<open>What a signal has emitted since its log was \<open>before\<close>.\<close>

definition emitted :: "'a list \<Rightarrow> 'a list \<Rightarrow> 'a list" where
  "emitted before after = drop (length before) after"

text \<open>
  The slot the constructor connects to \<open>instances.currentChanged\<close>, and the assignment
  \<open>instances.current = v\<close> as the wrapper performs it: a signal calls its slots before
  \<open>emit\<close> returns, so the slot runs inside the assignment, and the assignment it makes
  itself runs the slot again. \<open>onCurrentChanged\<close> is the no-op of the class. After
  \<open>dispose\<close> every connection of the wrapper is cleared and no slot runs.
\<close>

function on_instances_currentChanged :: "obj option \<Rightarrow> widget_tracker \<Rightarrow> widget_tracker"
  and assign_current :: "obj option \<Rightarrow> widget_tracker \<Rightarrow> widget_tracker" where
  "on_instances_currentChanged widget w =
     (if widget = None \<and> focusCurrentWidget w \<noteq> None
      then assign_current (focusCurrentWidget w) w
      else w\<lparr> wt_currentChanged := wt_currentChanged w @ [widget] \<rparr>)"
| "assign_current v w =
     (let t = instanceTracker w;
          t' = set_current v t;
          w' = w\<lparr> instanceTracker := t' \<rparr>
      in if wt_isDisposed w' then w'
         else fold on_instances_currentChanged
                (emitted (currentChanged t) (currentChanged t')) w')"
  by pat_completeness auto
termination
  by (relation "measure (\<lambda>x. case x of
          Inl (widget, w) \<Rightarrow> (if widget = None then 2 else 0)
        | Inr (v, w) \<Rightarrow> 1)")
     (auto simp: emitted_def set_current_def split: option.splits if_splits)

text \<open>
  The slots run for what the InstanceTracker emitted while it went from \<open>t0\<close> to its
  present state: \<open>added\<close> and \<open>updated\<close> are relayed, \<open>currentChanged\<close> goes to the
  slot above.
\<close>

definition sync :: "tracker \<Rightarrow> widget_tracker \<Rightarrow> widget_tracker" where
  "sync t0 w =
     (if wt_isDisposed w then w
      else
        let t1 = instanceTracker w;
            w1 = w\<lparr> widgetAdded := widgetAdded w @ emitted (added t0) (added t1),
                     widgetUpdated := widgetUpdated w @ emitted (updated t0) (updated t1) \<rparr>
        in fold on_instances_currentChanged
             (emitted (currentChanged t0) (currentChanged t1)) w1)"

text \<open>The slot the constructor connects to the \<open>currentChanged\<close> of the focus tracker.\<close>

definition on_focus_currentChanged :: "obj option \<Rightarrow> widget_tracker \<Rightarrow> widget_tracker" where
  "on_focus_currentChanged newValue w =
     (if newValue \<noteq> currentWidget w then assign_current newValue w else w)"

text \<open>
  Modelled from the spec: the focus tracker sets its \<open>currentWidget\<close> and, when the value
  changed, emits \<open>currentChanged\<close> with the new value, which runs the slot above.
\<close>

definition focus_setCurrent :: "obj option \<Rightarrow> widget_tracker \<Rightarrow> widget_tracker" where
  "focus_setCurrent newValue w =
     (if focusCurrentWidget w = newValue then w
      else
        let w1 = w\<lparr> focusCurrentWidget := newValue \<rparr> in
        if wt_isDisposed w1 then w1 else on_focus_currentChanged newValue w1)"

text \<open>Modelled from the spec: a registered widget takes the focus.\<close>

definition focus_event :: "obj \<Rightarrow> widget_tracker \<Rightarrow> widget_tracker" where
  "focus_event obj w =
     (if focusDisposed w \<or> obj \<notin> set (focusWidgets w) then w
      else focus_setCurrent (Some obj)
             (w\<lparr> focusHistory := obj # removeAll obj (focusHistory w) \<rparr>))"

text \<open>
  Modelled from the spec: \<open>add\<close> of the focus tracker registers a widget once, connects
  its slot to the \<open>disposed\<close> signal of the widget and, when the widget holds the focus,
  makes it the \<open>currentWidget\<close>.
\<close>

definition focus_add :: "disposable \<Rightarrow> widget_tracker \<Rightarrow> widget_tracker" where
  "focus_add widget w =
     (let obj = ident widget in
      if obj \<in> set (focusWidgets w) then w
      else
        let w1 = w\<lparr> focusWidgets := focusWidgets w @ [obj],
                     focusHistory := (if obj_hasFocus widget then obj # focusHistory w
                                      else focusHistory w),
                     disposedSlots := disposedSlots w @ [(obj, FocusSlot)] \<rparr>
        in if obj_hasFocus widget then focus_setCurrent (Some obj) w1 else w1)"

text \<open>
  Modelled from the spec: the slot of the focus tracker on the \<open>disposed\<close> signal of a
  widget.
\<close>

definition focus_onWidgetDisposed :: "obj \<Rightarrow> widget_tracker \<Rightarrow> widget_tracker" where
  "focus_onWidgetDisposed obj w =
     (if obj \<notin> set (focusWidgets w) then w
      else
        let w1 = w\<lparr> focusWidgets := removeAll obj (focusWidgets w),
                     focusHistory := removeAll obj (focusHistory w) \<rparr>
        in if focusCurrentWidget w1 \<noteq> Some obj then w1
           else focus_setCurrent
                  (case focusHistory w1 of [] \<Rightarrow> None | p # _ \<Rightarrow> Some p) w1)"

text \<open>
  The connection the InstanceTracker made to the \<open>disposed\<close> signal of \<open>obj\<close> while it
  went from \<open>t0\<close> to its present state, if it made one, is the latest of that signal.
\<close>

definition note_connection :: "tracker \<Rightarrow> obj \<Rightarrow> widget_tracker \<Rightarrow> widget_tracker" where
  "note_connection t0 obj w =
     (if obj \<notin> set (disposedConnections t0)
         \<and> obj \<in> set (disposedConnections (instanceTracker w))
      then w\<lparr> disposedSlots := disposedSlots w @ [(obj, InstanceSlot)] \<rparr>
      else w)"

text \<open>
  A widget is disposed: its \<open>disposed\<close> signal calls the slots connected to it, in the
  order of their connection, each slot running to its end, with the slots it triggers,
  before the next one starts. The signal is emitted once; its connections are dropped
  afterwards.
\<close>

fun run_slot :: "obj \<Rightarrow> slot \<Rightarrow> widget_tracker \<Rightarrow> widget_tracker" where
  "run_slot obj FocusSlot w = focus_onWidgetDisposed obj w"
| "run_slot obj InstanceSlot w =
     (let t0 = instanceTracker w in
      sync t0 (w\<lparr> instanceTracker := instance_disposed obj t0 \<rparr>))"

definition widget_disposed :: "obj \<Rightarrow> widget_tracker \<Rightarrow> widget_tracker" where
  "widget_disposed obj w =
     (let slots = map snd (filter (\<lambda>c. fst c = obj) (disposedSlots w));
          w1 = fold (run_slot obj) slots w
      in w1\<lparr> disposedSlots := filter (\<lambda>c. fst c \<noteq> obj) (disposedSlots w1) \<rparr>)"

definition wt_add :: "disposable \<Rightarrow> widget_tracker \<Rightarrow> unit promise \<times> widget_tracker" where
  "wt_add widget w =
     (let w1 = focus_add widget w;
          t0 = instanceTracker w1;
          r = add widget t0;
          w2 = sync t0 (note_connection t0 (ident widget) (w1\<lparr> instanceTracker := snd r \<rparr>))
      in case fst r of
           Rejected e \<Rightarrow> (Rejected e, w2)
         | Fulfilled _ \<Rightarrow> (Fulfilled (), assign_current (Some (ident widget)) w2))"

definition wt_inject :: "disposable \<Rightarrow> widget_tracker \<Rightarrow> unit promise \<times> widget_tracker" where
  "wt_inject widget w =
     (let t0 = instanceTracker w;
          r = inject widget t0
      in (fst r,
          sync t0 (note_connection t0 (ident widget) (w\<lparr> instanceTracker := snd r \<rparr>))))"

definition wt_save :: "disposable \<Rightarrow> widget_tracker \<Rightarrow> unit promise \<times> widget_tracker" where
  "wt_save widget w =
     (let t0 = instanceTracker w;
          r = save widget t0
      in (fst r, sync t0 (w\<lparr> instanceTracker := snd r \<rparr>)))"

definition wt_restore ::
  "restore_options \<Rightarrow> widget_tracker \<Rightarrow> json list promise \<times> widget_tracker" where
  "wt_restore options w =
     (let t0 = instanceTracker w;
          r = restore options t0
      in (fst r, sync t0 (w\<lparr> instanceTracker := snd r \<rparr>)))"

definition wt_has :: "widget_tracker \<Rightarrow> obj \<Rightarrow> bool" where
  "wt_has w widget = has (instanceTracker w) widget"

text \<open>
  \<open>dispose\<close> of the wrapper disposes both trackers; each of them clears its connections,
  and the focus tracker forgets its widgets.
\<close>

definition wt_dispose :: "widget_tracker \<Rightarrow> widget_tracker" where
  "wt_dispose w =
     (if wt_isDisposed w then w
      else w\<lparr> wt_isDisposed := True,
               instanceTracker := dispose (instanceTracker w),
               focusDisposed := True, focusCurrentWidget := None, focusWidgets := [],
               focusHistory := [], disposedSlots := [] \<rparr>)"

section \<open>Sample collaborators\<close>

text \<open>
  A notebook-like widget whose state is its path, and restore options over a connector
  that lists three entries, the second without a payload, and a registry whose command
  is rejected for the first entry. The variants have a connector whose \<open>remove\<close>, or
  whose \<open>save\<close>, is rejected.
\<close>

definition widget :: "obj \<Rightarrow> string \<Rightarrow> disposable" where
  "widget i path =
     \<lparr> ident = i, obj_isDisposed = False, obj_hasFocus = False, content = path \<rparr>"

definition sample_listing :: listing where
  "sample_listing =
     \<lparr> ids = [''nb:a'', ''nb:b'', ''nb:c''],
       vals = [Some (Some ''a''), None, Some (Some ''c'')] \<rparr>"

definition sample_options :: restore_options where
  "sample_options =
     \<lparr> command = ''open'',
       opt_name = (\<lambda>d. if content d = [] then None else Some (content d)),
       opt_args = (\<lambda>d. content d),
       opt_when = None,
       connector_list = (\<lambda>ns. Fulfilled sample_listing),
       connector_save = (\<lambda>k v. Fulfilled []),
       connector_remove = (\<lambda>k. Fulfilled []),
       registry_execute = (\<lambda>c a. if a = ''a'' then Rejected (Error ''stale'') else Fulfilled a) \<rparr>"

definition failing_remove_options :: restore_options where
  "failing_remove_options =
     sample_options\<lparr> connector_remove := (\<lambda>k. Rejected (Error ''remove failed'')) \<rparr>"

definition failing_save_options :: restore_options where
  "failing_save_options =
     sample_options\<lparr> connector_save := (\<lambda>k v. Rejected (Error ''save failed'')) \<rparr>"

text \<open>
  Two states reached from a new tracker: one with two tracked widgets after a restore,
  the first of them current; one with restore options whose connector rejects \<open>save\<close>.
\<close>

definition two_widgets :: tracker where
  "two_widgets =
     run [Restore sample_options, Add (widget 1 ''a''), Add (widget 2 ''b''),
          SetCurrent (Some 1)] (new_tracker ''nb'')"

definition unsaved_config :: tracker where
  "unsaved_config = run [Restore failing_save_options] (new_tracker ''nb'')"

text \<open>
  A tracker whose connector rejects \<open>remove\<close>, holding one widget saved under the name
  of its first path.
\<close>

definition unremovable :: tracker where
  "unremovable = run [Restore failing_remove_options, Add (widget 1 ''a'')] (new_tracker ''nb'')"

text \<open>
  Three wrappers, each with a widget that took the focus. In the first the widget was
  added. In the second it was injected and then added: the second call is rejected, but
  the focus tracker has registered the widget by then, so the slot of the
  InstanceTracker is connected to its \<open>disposed\<close> signal before the slot of the focus
  tracker. In the third two widgets were added, the first of them took the focus and the
  second became current when it was added.
\<close>

definition added_and_focused :: widget_tracker where
  "added_and_focused =
     focus_event 1 (snd (wt_add (widget 1 ''a'') (new_widget_tracker ''nb'')))"

definition reordered_slots :: widget_tracker where
  "reordered_slots =
     focus_event 1
       (snd (wt_add (widget 1 ''a'')
          (snd (wt_inject (widget 1 ''a'') (new_widget_tracker ''nb'')))))"

definition focused_elsewhere :: widget_tracker where
  "focused_elsewhere =
     snd (wt_add (widget 1 ''a'')
       (focus_event 2
          (snd (wt_add (widget 2 ''b'') (new_widget_tracker ''nb'')))))"

section \<open>Evaluation of the model\<close>

lemmas sample_defs = widget_def sample_listing_def sample_options_def
  failing_remove_options_def failing_save_options_def

lemmas tracker_defs = new_tracker_def has_def size_t_def keyed_def set_current_def
  connect_disposed_def add_def dispose_def inject_def entry_args_def entry_call_def
  entry_catch_def entry_promise_def entries_def restore_def newName_of_def save_def
  onInstanceDisposed_def instance_disposed_def

lemma two_widgets_fields:
  "instances two_widgets = [1, 2] \<and> current two_widgets = Some 1
   \<and> currentChanged two_widgets = [Some 1] \<and> added two_widgets = [1, 2]
   \<and> disposedConnections two_widgets = [1, 2] \<and> hasRestored two_widgets
   \<and> restoreOptions two_widgets = Some sample_options
   \<and> nameProperty two_widgets 1 = ''nb:a'' \<and> nameProperty two_widgets 2 = ''nb:b''
   \<and> \<not> injectedProperty two_widgets 1 \<and> \<not> injectedProperty two_widgets 2
   \<and> updated two_widgets = [] \<and> namespace two_widgets = ''nb''
   \<and> calls two_widgets =
       [ConnectorList ''nb'', RegistryExecute ''open'' ''a'', ConnectorRemove ''nb:b'',
        RegistryExecute ''open'' ''c'', ConnectorRemove ''nb:a'',
        ConnectorSave ''nb:a'' ''a'', ConnectorSave ''nb:b'' ''b'']"
  by (simp add: two_widgets_def tracker_defs sample_defs Let_def upt_rec)

lemmas wrapper_defs = new_widget_tracker_def currentWidget_def emitted_def sync_def
  on_focus_currentChanged_def focus_setCurrent_def focus_event_def focus_add_def
  focus_onWidgetDisposed_def note_connection_def widget_disposed_def wt_add_def
  wt_inject_def

lemma unremovable_fields:
  "restoreOptions unremovable = Some failing_remove_options \<and> instances unremovable = [1]
   \<and> \<not> injectedProperty unremovable 1 \<and> nameProperty unremovable 1 = ''nb:a''
   \<and> namespace unremovable = ''nb'' \<and> updated unremovable = []"
  by (simp add: unremovable_def tracker_defs sample_defs Let_def upt_rec)

section \<open>Auxiliary facts\<close>

lemma find_eq: "List.find (\<lambda>x. x = a) xs = (if a \<in> set xs then Some a else None)"
  by (induction xs) auto

lemma add_hasRestored: "hasRestored (snd (add d t)) = hasRestored t"
  by (simp add: add_def Let_def connect_disposed_def split: option.splits promise.splits)

lemma inject_hasRestored: "hasRestored (snd (inject d t)) = hasRestored t"
  by (simp add: inject_def add_hasRestored)

lemma save_hasRestored: "hasRestored (snd (save d t)) = hasRestored t"
  by (simp add: save_def Let_def split: option.splits promise.splits)

lemma restore_hasRestored: "hasRestored t \<Longrightarrow> hasRestored (snd (restore options t))"
  by (simp add: restore_def)

lemma step_hasRestored: "hasRestored t \<Longrightarrow> hasRestored (step x t)"
  by (cases x)
     (simp_all add: add_hasRestored inject_hasRestored save_hasRestored restore_hasRestored
        set_current_def instance_disposed_def onInstanceDisposed_def dispose_def Let_def
        split: option.splits)

lemma run_hasRestored: "hasRestored t \<Longrightarrow> hasRestored (run ops t)"
  by (induction ops arbitrary: t) (simp_all add: step_hasRestored)

lemma add_current_ok: "current_ok t \<Longrightarrow> current_ok (snd (add d t))"
  by (auto simp: current_ok_def add_def Let_def has_def connect_disposed_def
      split: option.splits promise.splits)

lemma inject_current_ok: "current_ok t \<Longrightarrow> current_ok (snd (inject d t))"
  unfolding inject_def by (rule add_current_ok) (simp add: current_ok_def has_def split: option.splits)

lemma set_current_ok: "current_ok t \<Longrightarrow> current_ok (set_current obj t)"
  by (auto simp: current_ok_def set_current_def has_def split: option.splits)

lemma onInstanceDisposed_current_ok: "current_ok t \<Longrightarrow> current_ok (onInstanceDisposed obj t)"
  by (auto simp: current_ok_def onInstanceDisposed_def Let_def has_def split: option.splits)

lemma dispose_current_ok: "current_ok t \<Longrightarrow> current_ok (dispose t)"
  by (auto simp: current_ok_def dispose_def has_def split: option.splits)

lemma save_current_ok: "current_ok t \<Longrightarrow> current_ok (snd (save d t))"
  by (auto simp: current_ok_def save_def Let_def has_def split: option.splits promise.splits)

lemma restore_current_ok: "current_ok t \<Longrightarrow> current_ok (snd (restore options t))"
  by (auto simp: current_ok_def restore_def Let_def has_def split: option.splits promise.splits)

lemma step_current_ok: "current_ok t \<Longrightarrow> current_ok (step x t)"
  by (cases x)
     (simp_all add: add_current_ok inject_current_ok set_current_ok onInstanceDisposed_current_ok
        dispose_current_ok save_current_ok restore_current_ok instance_disposed_def)

lemma run_current_ok: "current_ok t \<Longrightarrow> current_ok (run ops t)"
  by (induction ops arbitrary: t) (simp_all add: step_current_ok)

section \<open>Adding an instance\<close>

text \<open>
  Claim C5. \<open>add\<close> is rejected with an error when the instance is already disposed or
  is already tracked, and in both cases the tracked set is as it was before the call:
  the same members and the same size.
\<close>

theorem add_fails_disposed_or_tracked:
  assumes "obj_isDisposed d \<or> has t (ident d)"
  shows "fst (add d t) =
           Rejected (Error (if obj_isDisposed d then ''A disposed object cannot be added.''
                            else ''This object already exists in the tracker.''))
         \<and> instances (snd (add d t)) = instances t
         \<and> size_t (snd (add d t)) = size_t t
         \<and> (\<forall>x. has (snd (add d t)) x = has t x)"
  using assms by (auto simp: add_def Let_def has_def size_t_def)

theorem add_fails_disposed_or_tracked_witness:
  "has two_widgets (ident (widget 1 ''a''))
   \<and> fst (add (widget 1 ''a'') two_widgets)
       = Rejected (Error ''This object already exists in the tracker.'')
   \<and> instances (snd (add (widget 1 ''a'') two_widgets)) = [1, 2]
   \<and> size_t (snd (add (widget 1 ''a'') two_widgets)) = 2"
proof -
  have h: "obj_isDisposed (widget 1 ''a'') \<or> has two_widgets (ident (widget 1 ''a''))"
    by (simp add: has_def widget_def two_widgets_fields)
  from add_fails_disposed_or_tracked [OF h] show ?thesis
    by (simp add: has_def size_t_def widget_def two_widgets_fields)
qed

text \<open>
  Claim C10. \<open>add\<close> is not atomic when persistence fails: for an instance that is
  neither disposed, tracked nor injected, with restore options set and a non-empty
  computed name, a rejected \<open>connector.save\<close> rejects \<open>add\<close> with the same error, and
  yet the instance is in the tracked set (seen by \<open>has\<close>, \<open>find\<close> and \<open>forEach\<close>), its
  \<open>disposed\<close> signal is connected, its name tag is recorded, and \<open>added\<close> was not
  emitted for it.
\<close>

theorem add_not_atomic_on_save_failure:
  assumes "\<not> obj_isDisposed d" and "\<not> has t (ident d)"
    and "\<not> injectedProperty t (ident d)" and "restoreOptions t = Some r"
    and "truthy (opt_name r d)"
    and "connector_save r (keyed t (opt_name r d)) (opt_args r d) = Rejected e"
  shows "fst (add d t) = Rejected e
       \<and> has (snd (add d t)) (ident d)
       \<and> find_t (\<lambda>x. x = ident d) (snd (add d t)) = Some (ident d)
       \<and> ident d \<in> set (forEach (\<lambda>x. x) (snd (add d t)))
       \<and> ident d \<in> set (disposedConnections (snd (add d t)))
       \<and> nameProperty (snd (add d t)) (ident d) = keyed t (opt_name r d)
       \<and> added (snd (add d t)) = added t"
  using assms
  by (simp add: add_def Let_def has_def find_t_def forEach_def connect_disposed_def keyed_def find_eq)

theorem add_not_atomic_on_save_failure_witness:
  "restoreOptions unsaved_config = Some failing_save_options
   \<and> fst (add (widget 1 ''a'') unsaved_config) = Rejected (Error ''save failed'')
   \<and> has (snd (add (widget 1 ''a'') unsaved_config)) 1
   \<and> nameProperty (snd (add (widget 1 ''a'') unsaved_config)) 1 = ''nb:a''
   \<and> added (snd (add (widget 1 ''a'') unsaved_config)) = []"
proof -
  have f: "restoreOptions unsaved_config = Some failing_save_options
     \<and> instances unsaved_config = [] \<and> added unsaved_config = []
     \<and> namespace unsaved_config = ''nb'' \<and> \<not> injectedProperty unsaved_config 1"
    by (simp add: unsaved_config_def tracker_defs sample_defs Let_def upt_rec)
  have h1: "\<not> obj_isDisposed (widget 1 ''a'')" by (simp add: widget_def)
  have h2: "\<not> has unsaved_config (ident (widget 1 ''a''))" using f by (simp add: has_def)
  have h3: "\<not> injectedProperty unsaved_config (ident (widget 1 ''a''))"
    using f by (simp add: widget_def)
  have h4: "restoreOptions unsaved_config = Some failing_save_options" by (simp add: f)
  have h5: "truthy (opt_name failing_save_options (widget 1 ''a''))"
    by (simp add: sample_defs)
  have h6: "connector_save failing_save_options
              (keyed unsaved_config (opt_name failing_save_options (widget 1 ''a'')))
              (opt_args failing_save_options (widget 1 ''a'')) = Rejected (Error ''save failed'')"
    by (simp add: sample_defs)
  from add_not_atomic_on_save_failure [OF h1 h2 h3 h4 h5 h6] show ?thesis
    using f by (simp add: keyed_def sample_defs)
qed

section \<open>The current instance\<close>

text \<open>
  Claim C7, as the code has it. Setting \<open>current\<close> to null, or to an instance that is
  not in the tracked set, changes nothing and emits nothing; so does setting it to the
  value it already holds; in every other case, that of a tracked instance other than
  the one held, the pointer is updated and \<open>currentChanged\<close> is emitted once, with the
  new value.
\<close>

theorem set_current_cases:
  "(obj = None \<longrightarrow> set_current obj t = t) \<and>
   (\<not> (\<exists>x. obj = Some x \<and> has t x) \<longrightarrow> set_current obj t = t) \<and>
   (current t = obj \<longrightarrow> set_current obj t = t) \<and>
   ((\<exists>x. obj = Some x \<and> has t x) \<and> current t \<noteq> obj \<longrightarrow>
      set_current obj t = t\<lparr> current := obj, currentChanged := currentChanged t @ [obj] \<rparr>)"
  by (auto simp: set_current_def split: option.splits)

theorem set_current_cases_witness:
  "set_current None two_widgets = two_widgets
   \<and> set_current (Some 7) two_widgets = two_widgets
   \<and> set_current (Some 1) two_widgets = two_widgets
   \<and> current (set_current (Some 2) two_widgets) = Some 2
   \<and> currentChanged (set_current (Some 2) two_widgets) = [Some 1, Some 2]"
  using set_current_cases [of None two_widgets]
    set_current_cases [of "Some 7" two_widgets]
    set_current_cases [of "Some 1" two_widgets]
    set_current_cases [of "Some 2" two_widgets]
  by (simp add: has_def two_widgets_fields)

text \<open>
  Claim C7 as stated fails: null is not an instance absent from the tracked set, and it
  is not the value held while an instance is current, so assigning it is one of the
  other cases; yet the pointer keeps the instance and nothing is emitted.
\<close>

theorem set_current_ignores_null:
  "current two_widgets = Some 1
   \<and> current (set_current None two_widgets) = Some 1
   \<and> currentChanged (set_current None two_widgets) = currentChanged two_widgets"
  using two_widgets_fields by (simp add: set_current_def)

text \<open>
  Claim C2. \<open>current\<close> is null or a member of the tracked set: in a new tracker, after
  every single operation on a state where it holds (add, inject, setting current, the
  disposal of an instance, dispose, save, restore), and so after every sequence of
  operations on a new tracker.
\<close>

theorem current_null_or_member:
  "current_ok (new_tracker ns) \<and>
   (current_ok t \<longrightarrow> current_ok (step x t)) \<and>
   (case current (run ops (new_tracker ns)) of
      None \<Rightarrow> True
    | Some c \<Rightarrow> c \<in> set (instances (run ops (new_tracker ns))))"
proof -
  have init: "current_ok (new_tracker ns)"
    by (simp add: current_ok_def new_tracker_def)
  from run_current_ok [OF init, of ops]
  have "case current (run ops (new_tracker ns)) of
      None \<Rightarrow> True
    | Some c \<Rightarrow> c \<in> set (instances (run ops (new_tracker ns)))"
    by (simp add: current_ok_def has_def split: option.splits)
  with init step_current_ok show ?thesis by blast
qed

theorem current_null_or_member_witness:
  "current two_widgets = Some 1 \<and> 1 \<in> set (instances two_widgets)
   \<and> current_ok (step (InstanceDisposed 1) two_widgets)"
proof -
  have c: "current two_widgets = Some 1" by (simp add: two_widgets_fields)
  have "case current two_widgets of None \<Rightarrow> True
        | Some c \<Rightarrow> c \<in> set (instances two_widgets)"
    unfolding two_widgets_def
    using current_null_or_member [of "''nb''" two_widgets "InstanceDisposed 1"] by blast
  with c have m: "1 \<in> set (instances two_widgets)" by simp
  with c have ok: "current_ok two_widgets" by (simp add: current_ok_def has_def)
  with current_null_or_member [of "''nb''" two_widgets "InstanceDisposed 1" "[]"]
  have "current_ok (step (InstanceDisposed 1) two_widgets)" by blast
  with c m show ?thesis by simp
qed

section \<open>Restoring\<close>

text \<open>
  Claim C6. \<open>restore\<close> runs at most once: the first call records the restore options
  and goes on to request the listing, and every later call, whatever happened to the
  tracker in between, is rejected with the error of a repeated restore and changes
  nothing.
\<close>

theorem restore_at_most_once:
  assumes "\<not> hasRestored t"
  shows "hasRestored (snd (restore options t))
       \<and> restoreOptions (snd (restore options t)) = Some options
       \<and> take (Suc (length (calls t))) (calls (snd (restore options t)))
           = calls t @ [ConnectorList (namespace t)]
       \<and> (\<forall>ops options'.
             restore options' (run ops (snd (restore options t)))
               = (Rejected (Error ''Instance tracker has already restored''),
                  run ops (snd (restore options t))))"
proof -
  let ?t = "snd (restore options t)"
  have a: "hasRestored ?t"
    using assms by (simp add: restore_def Let_def split: promise.splits)
  have b: "restoreOptions ?t = Some options"
    using assms by (simp add: restore_def Let_def split: promise.splits)
  have c: "take (Suc (length (calls t))) (calls ?t) = calls t @ [ConnectorList (namespace t)]"
    using assms by (simp add: restore_def Let_def split: promise.splits)
  have d: "restore options' (run ops ?t)
             = (Rejected (Error ''Instance tracker has already restored''), run ops ?t)"
    for ops options'
    using run_hasRestored [OF a, of ops] by (simp add: restore_def)
  from a b c d show ?thesis by blast
qed

theorem restore_at_most_once_witness:
  "\<not> hasRestored (new_tracker ''nb'')
   \<and> restoreOptions (snd (restore sample_options (new_tracker ''nb''))) = Some sample_options
   \<and> fst (restore failing_save_options
            (run [Add (widget 1 ''a'')] (snd (restore sample_options (new_tracker ''nb'')))))
       = Rejected (Error ''Instance tracker has already restored'')"
proof -
  have h: "\<not> hasRestored (new_tracker ''nb'')" by (simp add: new_tracker_def)
  note r = restore_at_most_once [OF h, of sample_options]
  from r have a: "restoreOptions (snd (restore sample_options (new_tracker ''nb'')))
                    = Some sample_options" by blast
  from r have "restore failing_save_options
            (run [Add (widget 1 ''a'')] (snd (restore sample_options (new_tracker ''nb''))))
       = (Rejected (Error ''Instance tracker has already restored''),
          run [Add (widget 1 ''a'')] (snd (restore sample_options (new_tracker ''nb''))))"
    by blast
  then have "fst (restore failing_save_options
            (run [Add (widget 1 ''a'')] (snd (restore sample_options (new_tracker ''nb'')))))
       = Rejected (Error ''Instance tracker has already restored'')"
    by (simp only: fst_conv)
  with h a show ?thesis by blast
qed

subsection \<open>The batch of persisted entries\<close>

lemma promise_all_Fulfilled_iff:
  "(\<exists>vs. promise_all ps = Fulfilled vs) = (\<forall>p \<in> set ps. \<exists>v. p = Fulfilled v)"
proof (induction ps)
  case Nil
  show ?case by simp
next
  case (Cons p ps)
  show ?case
  proof (cases p)
    case (Fulfilled v)
    with Cons show ?thesis by (auto split: promise.splits)
  next
    case (Rejected e)
    then show ?thesis by auto
  qed
qed

lemma promise_all_length: "promise_all ps = Fulfilled vs \<Longrightarrow> length vs = length ps"
proof (induction ps arbitrary: vs)
  case Nil
  then show ?case by simp
next
  case (Cons p ps)
  then show ?case by (cases p) (auto split: promise.splits)
qed

lemma promise_all_Rejected: "promise_all ps = Rejected e \<Longrightarrow> Rejected e \<in> set ps"
proof (induction ps)
  case Nil
  then show ?case by simp
next
  case (Cons p ps)
  then show ?case by (cases p) (auto split: promise.splits)
qed

lemma set_entries: "set (entries saved) = {(ids saved ! i, i) | i. i < length (ids saved)}"
  by (auto simp: entries_def set_zip)

lemma restore_proceeds:
  assumes "\<not> hasRestored t"
    and "connector_list options (namespace t) = Fulfilled saved"
    and "promise_all (case opt_when options of None \<Rightarrow> [] | Some w \<Rightarrow> w) = Fulfilled ws"
  shows "restore options t =
     (let t2 = t\<lparr> hasRestored := True, restoreOptions := Some options,
                  calls := calls t @ [ConnectorList (namespace t)]
                     @ map (entry_call options saved) (entries saved)
                     @ concat (map (entry_catch options saved) (entries saved)) \<rparr>
      in case promise_all (map (entry_promise options saved) (entries saved)) of
           Rejected e \<Rightarrow> (Rejected e, t2)
         | Fulfilled vs \<Rightarrow> (Fulfilled vs, t2\<lparr> restored := True \<rparr>))"
  using assms by (simp add: restore_def Let_def split: promise.splits)

lemma restore_calls:
  assumes "\<not> hasRestored t"
    and "connector_list options (namespace t) = Fulfilled saved"
    and "promise_all (case opt_when options of None \<Rightarrow> [] | Some w \<Rightarrow> w) = Fulfilled ws"
  shows "calls (snd (restore options t)) =
           calls t @ [ConnectorList (namespace t)]
             @ map (entry_call options saved) (entries saved)
             @ concat (map (entry_catch options saved) (entries saved))"
  by (simp add: restore_proceeds [OF assms] Let_def split: promise.splits)

lemma restore_restored:
  assumes "\<not> hasRestored t"
    and "connector_list options (namespace t) = Fulfilled saved"
    and "promise_all (case opt_when options of None \<Rightarrow> [] | Some w \<Rightarrow> w) = Fulfilled ws"
    and "\<not> restored t"
  shows "restored (snd (restore options t)) =
           (\<exists>vs. promise_all (map (entry_promise options saved) (entries saved)) = Fulfilled vs)"
  using assms(4)
  by (simp add: restore_proceeds [OF assms(1-3)] Let_def split: promise.splits)

lemma restore_result:
  assumes "\<not> hasRestored t"
    and "connector_list options (namespace t) = Fulfilled saved"
    and "promise_all (case opt_when options of None \<Rightarrow> [] | Some w \<Rightarrow> w) = Fulfilled ws"
  shows "fst (restore options t) = promise_all (map (entry_promise options saved) (entries saved))"
  by (simp add: restore_proceeds [OF assms] Let_def split: promise.splits)

lemma entry_promise_Fulfilled:
  "(\<exists>v. entry_promise options saved (x, i) = Fulfilled v) =
     ((entry_args saved i = None
        \<or> (\<exists>a err. entry_args saved i = Some a
              \<and> registry_execute options (command options) a = Rejected err))
      \<longrightarrow> (\<exists>v. connector_remove options x = Fulfilled v))"
  by (auto simp: entry_promise_def split: option.splits promise.splits)

lemma entry_promise_Rejected:
  "entry_promise options saved (x, i) = Rejected err \<Longrightarrow>
     connector_remove options x = Rejected err
     \<and> ConnectorRemove x \<in> set (entry_call options saved (x, i) # entry_catch options saved (x, i))"
  by (auto simp: entry_promise_def entry_call_def entry_catch_def
      split: option.splits promise.splits)

lemma entry_calls_issued:
  "(case entry_args saved i of
      None \<Rightarrow> entry_call options saved (x, i) = ConnectorRemove x
    | Some a \<Rightarrow>
        entry_call options saved (x, i) = RegistryExecute (command options) a
        \<and> (\<forall>err. registry_execute options (command options) a = Rejected err
              \<longrightarrow> entry_catch options saved (x, i) = [ConnectorRemove x]))"
  by (simp add: entry_call_def entry_catch_def split: option.splits)

lemma sample_restore_fields:
  "\<not> hasRestored (new_tracker ''nb'') \<and> \<not> restored (new_tracker ''nb'')
   \<and> namespace (new_tracker ''nb'') = ''nb'' \<and> calls (new_tracker ''nb'') = []
   \<and> connector_list sample_options ''nb'' = Fulfilled sample_listing
   \<and> connector_list failing_remove_options ''nb'' = Fulfilled sample_listing
   \<and> promise_all (case opt_when sample_options of None \<Rightarrow> [] | Some w \<Rightarrow> w) = Fulfilled []
   \<and> promise_all (case opt_when failing_remove_options of None \<Rightarrow> [] | Some w \<Rightarrow> w)
        = Fulfilled []
   \<and> ids sample_listing = [''nb:a'', ''nb:b'', ''nb:c'']"
  by (simp add: new_tracker_def sample_defs)

text \<open>
  Claim C3. When the listing and the gating promises are fulfilled, every persisted
  entry is processed: an entry without a data payload has its removal requested from the
  connector; for any other entry the configured command is executed with the stored
  arguments, and when that execution is rejected the removal of the entry is requested.
  The error of an execution is swallowed: if the removals are fulfilled, \<open>restore\<close> is
  fulfilled with one outcome per entry whatever the executions did, and an error that
  \<open>restore\<close> does report is the error of a removal. The calls of all entries are issued
  whatever the outcome of any of them.
\<close>

theorem restore_processes_every_entry:
  assumes "\<not> hasRestored t"
    and "connector_list options (namespace t) = Fulfilled saved"
    and "promise_all (case opt_when options of None \<Rightarrow> [] | Some w \<Rightarrow> w) = Fulfilled ws"
  shows "calls (snd (restore options t)) =
           calls t @ [ConnectorList (namespace t)]
             @ map (entry_call options saved) (entries saved)
             @ concat (map (entry_catch options saved) (entries saved))
       \<and> (\<forall>i < length (ids saved).
            case entry_args saved i of
              None \<Rightarrow> ConnectorRemove (ids saved ! i) \<in> set (calls (snd (restore options t)))
            | Some a \<Rightarrow>
                RegistryExecute (command options) a \<in> set (calls (snd (restore options t)))
                \<and> (\<forall>err. registry_execute options (command options) a = Rejected err
                      \<longrightarrow> ConnectorRemove (ids saved ! i)
                            \<in> set (calls (snd (restore options t)))))
       \<and> ((\<forall>x \<in> set (ids saved). \<exists>v. connector_remove options x = Fulfilled v)
            \<longrightarrow> (\<exists>vs. fst (restore options t) = Fulfilled vs
                       \<and> length vs = length (ids saved)))
       \<and> (\<forall>err. fst (restore options t) = Rejected err
            \<longrightarrow> (\<exists>x \<in> set (ids saved). connector_remove options x = Rejected err))"
proof -
  let ?t = "snd (restore options t)"
  note c = restore_calls [OF assms]
  have mem: "(ids saved ! i, i) \<in> set (entries saved)" if "i < length (ids saved)" for i
    using that by (auto simp: set_entries)
  have per: "case entry_args saved i of
              None \<Rightarrow> ConnectorRemove (ids saved ! i) \<in> set (calls ?t)
            | Some a \<Rightarrow>
                RegistryExecute (command options) a \<in> set (calls ?t)
                \<and> (\<forall>err. registry_execute options (command options) a = Rejected err
                      \<longrightarrow> ConnectorRemove (ids saved ! i) \<in> set (calls ?t))"
    if i: "i < length (ids saved)" for i
  proof (cases "entry_args saved i")
    case None
    with entry_calls_issued [where saved = saved and i = i and options = options and x = "ids saved ! i"]
    have "entry_call options saved (ids saved ! i, i) = ConnectorRemove (ids saved ! i)"
      by simp
    with mem [OF i] have "ConnectorRemove (ids saved ! i)
        \<in> set (map (entry_call options saved) (entries saved))"
      by (metis image_eqI set_map)
    with None show ?thesis by (simp add: c)
  next
    case (Some a)
    with entry_calls_issued [where saved = saved and i = i and options = options and x = "ids saved ! i"]
    have e: "entry_call options saved (ids saved ! i, i) = RegistryExecute (command options) a"
      and k: "\<forall>err. registry_execute options (command options) a = Rejected err
              \<longrightarrow> entry_catch options saved (ids saved ! i, i) = [ConnectorRemove (ids saved ! i)]"
      by simp_all
    from e mem [OF i] have 1: "RegistryExecute (command options) a
        \<in> set (map (entry_call options saved) (entries saved))"
      by (metis image_eqI set_map)
    have 2: "ConnectorRemove (ids saved ! i)
        \<in> set (concat (map (entry_catch options saved) (entries saved)))"
      if "registry_execute options (command options) a = Rejected err" for err
    proof -
      from k that have "entry_catch options saved (ids saved ! i, i) = [ConnectorRemove (ids saved ! i)]"
        by blast
      with mem [OF i] show ?thesis by force
    qed
    from 1 2 Some show ?thesis by (auto simp: c)
  qed
  have swallow: "\<exists>vs. fst (restore options t) = Fulfilled vs \<and> length vs = length (ids saved)"
    if ok: "\<forall>x \<in> set (ids saved). \<exists>v. connector_remove options x = Fulfilled v"
  proof -
    have "\<forall>e \<in> set (entries saved). \<exists>v. entry_promise options saved e = Fulfilled v"
      using ok by (auto simp: set_entries entry_promise_Fulfilled)
    then obtain vs where vs: "promise_all (map (entry_promise options saved) (entries saved))
        = Fulfilled vs"
      using promise_all_Fulfilled_iff [of "map (entry_promise options saved) (entries saved)"]
      by auto
    from promise_all_length [OF vs] have "length vs = length (ids saved)"
      by (simp add: entries_def)
    with vs show ?thesis by (simp add: restore_result [OF assms])
  qed
  have origin: "\<exists>x \<in> set (ids saved). connector_remove options x = Rejected err"
    if r: "fst (restore options t) = Rejected err" for err
  proof -
    from r have "promise_all (map (entry_promise options saved) (entries saved)) = Rejected err"
      by (simp add: restore_result [OF assms])
    from promise_all_Rejected [OF this]
    obtain e where e: "e \<in> set (entries saved)" "entry_promise options saved e = Rejected err"
      by auto
    from e(1) obtain i where i: "i < length (ids saved)" "e = (ids saved ! i, i)"
      by (auto simp: set_entries)
    from e(2) i(2) entry_promise_Rejected [of options saved "ids saved ! i" i err]
    have "connector_remove options (ids saved ! i) = Rejected err" by simp
    with i(1) show ?thesis by auto
  qed
  from c per swallow origin show ?thesis by blast
qed

theorem restore_processes_every_entry_witness:
  "\<not> hasRestored (new_tracker ''nb'')
   \<and> connector_list sample_options (namespace (new_tracker ''nb'')) = Fulfilled sample_listing
   \<and> calls (snd (restore sample_options (new_tracker ''nb''))) =
       [ConnectorList ''nb'', RegistryExecute ''open'' ''a'', ConnectorRemove ''nb:b'',
        RegistryExecute ''open'' ''c'', ConnectorRemove ''nb:a'']
   \<and> (\<exists>vs. fst (restore sample_options (new_tracker ''nb'')) = Fulfilled vs \<and> length vs = 3)"
proof -
  have h1: "\<not> hasRestored (new_tracker ''nb'')" by (simp add: sample_restore_fields)
  have h2: "connector_list sample_options (namespace (new_tracker ''nb''))
              = Fulfilled sample_listing"
    by (simp add: sample_restore_fields)
  have h3: "promise_all (case opt_when sample_options of None \<Rightarrow> [] | Some w \<Rightarrow> w)
              = Fulfilled []"
    by (simp add: sample_restore_fields)
  note r = restore_processes_every_entry [OF h1 h2 h3]
  have ok: "\<forall>x \<in> set (ids sample_listing). \<exists>v. connector_remove sample_options x = Fulfilled v"
    by (simp add: sample_defs)
  from r have "calls (snd (restore sample_options (new_tracker ''nb''))) =
           calls (new_tracker ''nb'') @ [ConnectorList (namespace (new_tracker ''nb''))]
             @ map (entry_call sample_options sample_listing) (entries sample_listing)
             @ concat (map (entry_catch sample_options sample_listing) (entries sample_listing))"
    by blast
  also have "\<dots> = [ConnectorList ''nb'', RegistryExecute ''open'' ''a'', ConnectorRemove ''nb:b'',
        RegistryExecute ''open'' ''c'', ConnectorRemove ''nb:a'']"
    by (simp add: new_tracker_def entries_def entry_call_def entry_catch_def entry_args_def
        sample_defs upt_rec)
  finally have c: "calls (snd (restore sample_options (new_tracker ''nb''))) =
       [ConnectorList ''nb'', RegistryExecute ''open'' ''a'', ConnectorRemove ''nb:b'',
        RegistryExecute ''open'' ''c'', ConnectorRemove ''nb:a'']" .
  from r ok have "\<exists>vs. fst (restore sample_options (new_tracker ''nb'')) = Fulfilled vs
       \<and> length vs = length (ids sample_listing)"
    by blast
  then have v: "\<exists>vs. fst (restore sample_options (new_tracker ''nb'')) = Fulfilled vs
       \<and> length vs = 3"
    by (simp add: sample_restore_fields numeral_3_eq_3)
  from h1 h2 c v show ?thesis by blast
qed

text \<open>
  Claim C1, as the code has it. When the listing and the gating promises are fulfilled,
  the calls of every entry are issued whatever the others do, and \<open>restored\<close> is resolved
  exactly when \<open>restore\<close> is fulfilled, which is exactly when every removal that the
  batch requested (for an entry without payload, or after a rejected command) was
  fulfilled. A rejected command alone never prevents it.
\<close>

theorem restored_iff_removals_fulfilled:
  assumes "\<not> hasRestored t"
    and "connector_list options (namespace t) = Fulfilled saved"
    and "promise_all (case opt_when options of None \<Rightarrow> [] | Some w \<Rightarrow> w) = Fulfilled ws"
    and "\<not> restored t"
  shows "restored (snd (restore options t)) =
           (\<forall>i < length (ids saved).
              (entry_args saved i = None
                \<or> (\<exists>a err. entry_args saved i = Some a
                      \<and> registry_execute options (command options) a = Rejected err))
              \<longrightarrow> (\<exists>v. connector_remove options (ids saved ! i) = Fulfilled v))
       \<and> (\<exists>vs. fst (restore options t) = Fulfilled vs) = restored (snd (restore options t))
       \<and> calls (snd (restore options t)) =
           calls t @ [ConnectorList (namespace t)]
             @ map (entry_call options saved) (entries saved)
             @ concat (map (entry_catch options saved) (entries saved))"
proof -
  have "restored (snd (restore options t)) =
          (\<forall>e \<in> set (entries saved). \<exists>v. entry_promise options saved e = Fulfilled v)"
    by (simp add: restore_restored [OF assms] promise_all_Fulfilled_iff)
  also have "\<dots> = (\<forall>i < length (ids saved).
              \<exists>v. entry_promise options saved (ids saved ! i, i) = Fulfilled v)"
    by (auto simp: set_entries)
  finally have a: "restored (snd (restore options t)) =
           (\<forall>i < length (ids saved).
              (entry_args saved i = None
                \<or> (\<exists>a err. entry_args saved i = Some a
                      \<and> registry_execute options (command options) a = Rejected err))
              \<longrightarrow> (\<exists>v. connector_remove options (ids saved ! i) = Fulfilled v))"
    by (simp only: entry_promise_Fulfilled)
  have b: "(\<exists>vs. fst (restore options t) = Fulfilled vs) = restored (snd (restore options t))"
    by (simp add: restore_restored [OF assms] restore_result [OF assms(1-3)])
  from a b restore_calls [OF assms(1-3)] show ?thesis by blast
qed

theorem restored_iff_removals_fulfilled_witness:
  "\<not> hasRestored (new_tracker ''nb'') \<and> \<not> restored (new_tracker ''nb'')
   \<and> connector_list sample_options (namespace (new_tracker ''nb'')) = Fulfilled sample_listing
   \<and> registry_execute sample_options (command sample_options) ''a'' = Rejected (Error ''stale'')
   \<and> restored (snd (restore sample_options (new_tracker ''nb'')))
   \<and> (\<exists>vs. fst (restore sample_options (new_tracker ''nb'')) = Fulfilled vs)"
proof -
  have h1: "\<not> hasRestored (new_tracker ''nb'')" by (simp add: sample_restore_fields)
  have h2: "connector_list sample_options (namespace (new_tracker ''nb''))
              = Fulfilled sample_listing"
    by (simp add: sample_restore_fields)
  have h3: "promise_all (case opt_when sample_options of None \<Rightarrow> [] | Some w \<Rightarrow> w)
              = Fulfilled []"
    by (simp add: sample_restore_fields)
  have h4: "\<not> restored (new_tracker ''nb'')" by (simp add: sample_restore_fields)
  have x: "registry_execute sample_options (command sample_options) ''a''
             = Rejected (Error ''stale'')"
    by (simp add: sample_defs)
  note r = restored_iff_removals_fulfilled [OF h1 h2 h3 h4]
  have "\<forall>i < length (ids sample_listing).
          \<exists>v. connector_remove sample_options (ids sample_listing ! i) = Fulfilled v"
    by (simp add: sample_defs)
  with r have a: "restored (snd (restore sample_options (new_tracker ''nb'')))" by blast
  with r have b: "\<exists>vs. fst (restore sample_options (new_tracker ''nb'')) = Fulfilled vs"
    by blast
  from h1 h2 h4 x a b show ?thesis by blast
qed

text \<open>
  Claim C1 as stated fails: with a connector whose \<open>remove\<close> is rejected, the listing
  is fulfilled, there is no gate, the calls of all three entries are issued and settle,
  and yet \<open>restore\<close> is rejected and \<open>restored\<close> is never resolved.
\<close>

theorem restored_unresolved_after_failed_removal:
  "connector_list failing_remove_options (namespace (new_tracker ''nb''))
     = Fulfilled sample_listing
   \<and> opt_when failing_remove_options = None
   \<and> calls (snd (restore failing_remove_options (new_tracker ''nb''))) =
       [ConnectorList ''nb'', RegistryExecute ''open'' ''a'', ConnectorRemove ''nb:b'',
        RegistryExecute ''open'' ''c'', ConnectorRemove ''nb:a'']
   \<and> \<not> restored (snd (restore failing_remove_options (new_tracker ''nb'')))
   \<and> fst (restore failing_remove_options (new_tracker ''nb''))
       = Rejected (Error ''remove failed'')"
  by (simp add: tracker_defs sample_defs Let_def upt_rec)

section \<open>Disposal of a tracked instance\<close>

text \<open>
  Every tracked instance of a tracker reached from a new one is connected, so its
  \<open>disposed\<close> signal reaches \<open>_onInstanceDisposed\<close>.
\<close>

lemma tracked_connected_step:
  "set (instances t) \<subseteq> set (disposedConnections t) \<Longrightarrow>
   set (instances (step x t)) \<subseteq> set (disposedConnections (step x t))"
  by (cases x)
     (auto simp: add_def inject_def Let_def connect_disposed_def set_current_def
        instance_disposed_def onInstanceDisposed_def dispose_def save_def restore_def
        split: option.splits promise.splits if_splits)

lemma tracked_connected:
  "set (instances (run ops (new_tracker ns))) \<subseteq> set (disposedConnections (run ops (new_tracker ns)))"
proof -
  have "set (instances t) \<subseteq> set (disposedConnections t) \<Longrightarrow>
        set (instances (run ops t)) \<subseteq> set (disposedConnections (run ops t))" for t
    by (induction ops arbitrary: t) (simp_all add: tracked_connected_step)
  then show ?thesis by (simp add: new_tracker_def)
qed

text \<open>
  Claim C8. When a connected instance signals its disposal, the tracker removes it from
  the tracked set; if it was \<open>current\<close>, \<open>current\<close> becomes null and \<open>currentChanged\<close>
  is emitted once, with null, and otherwise neither changes; for an injected instance
  no call is made on the connector; otherwise, when restore options exist and a name
  was recorded for the instance, one \<open>connector.remove\<close> of that name is issued, and
  how that removal settles has no effect on the tracker.
\<close>

theorem instance_disposal_cleanup:
  assumes "obj \<in> set (disposedConnections t)"
  shows "instances (instance_disposed obj t) = removeAll obj (instances t)
       \<and> \<not> has (instance_disposed obj t) obj
       \<and> (current t = Some obj \<longrightarrow>
            current (instance_disposed obj t) = None
            \<and> currentChanged (instance_disposed obj t) = currentChanged t @ [None])
       \<and> (current t \<noteq> Some obj \<longrightarrow>
            current (instance_disposed obj t) = current t
            \<and> currentChanged (instance_disposed obj t) = currentChanged t)
       \<and> calls (instance_disposed obj t) =
            calls t @
              (if \<not> injectedProperty t obj \<and> restoreOptions t \<noteq> None \<and> nameProperty t obj \<noteq> []
               then [ConnectorRemove (nameProperty t obj)] else [])
       \<and> (\<forall>r f. instance_disposed obj (t\<lparr> restoreOptions := Some (r\<lparr> connector_remove := f \<rparr>) \<rparr>)
                 = (instance_disposed obj (t\<lparr> restoreOptions := Some r \<rparr>))
                     \<lparr> restoreOptions := Some (r\<lparr> connector_remove := f \<rparr>) \<rparr>)"
  using assms
  by (auto simp: instance_disposed_def onInstanceDisposed_def Let_def has_def
      split: option.splits)

theorem instance_disposal_cleanup_witness:
  "1 \<in> set (disposedConnections two_widgets) \<and> current two_widgets = Some 1
   \<and> instances (instance_disposed 1 two_widgets) = [2]
   \<and> current (instance_disposed 1 two_widgets) = None
   \<and> currentChanged (instance_disposed 1 two_widgets) = [Some 1, None]
   \<and> calls (instance_disposed 1 two_widgets) = calls two_widgets @ [ConnectorRemove ''nb:a'']"
proof -
  have h: "1 \<in> set (disposedConnections two_widgets)" by (simp add: two_widgets_fields)
  have c: "current two_widgets = Some 1" by (simp add: two_widgets_fields)
  from instance_disposal_cleanup [OF h] c show ?thesis
    using h two_widgets_fields by simp
qed

section \<open>Saving\<close>

lemma save_noop:
  "restoreOptions t = None \<or> \<not> has t (ident d) \<or> injectedProperty t (ident d)
   \<Longrightarrow> save d t = (Fulfilled (), t)"
  by (auto simp: save_def Let_def split: option.splits)

lemma save_effect:
  assumes "restoreOptions t = Some r" and "has t (ident d)"
    and "\<not> injectedProperty t (ident d)"
  shows "let obj = ident d;
             old = nameProperty t obj;
             new = newName_of t r d;
             stale = (old \<noteq> [] \<and> old \<noteq> new);
             removed = (stale \<longrightarrow> (\<exists>v. connector_remove r old = Fulfilled v));
             written = (new \<noteq> [] \<longrightarrow> (\<exists>v. connector_save r new (opt_args r d) = Fulfilled v));
             t' = snd (save d t)
         in calls t' = calls t @ (if stale then [ConnectorRemove old] else [])
                         @ (if removed \<and> new \<noteq> [] then [ConnectorSave new (opt_args r d)] else [])
          \<and> (removed \<longrightarrow> nameProperty t' = (nameProperty t)(obj := new))
          \<and> (\<not> removed \<longrightarrow> nameProperty t' = nameProperty t)
          \<and> updated t' = updated t @ (if removed \<and> written \<and> old \<noteq> new then [obj] else [])
          \<and> (fst (save d t) = Fulfilled ()) = (removed \<and> written)"
  using assms
  by (auto simp: save_def Let_def split: promise.splits)

lemma save_frame:
  "restoreOptions (snd (save d t)) = restoreOptions t
   \<and> instances (snd (save d t)) = instances t
   \<and> injectedProperty (snd (save d t)) = injectedProperty t
   \<and> namespace (snd (save d t)) = namespace t"
  by (simp add: save_def Let_def split: option.splits promise.splits)

lemma save_fulfilled_name:
  assumes "restoreOptions t = Some r" and "has t (ident d)"
    and "\<not> injectedProperty t (ident d)" and "fst (save d t) = Fulfilled ()"
  shows "nameProperty (snd (save d t)) (ident d) = newName_of t r d"
  using assms
  by (auto simp: save_def Let_def split: promise.splits if_splits)

lemma save_same_name_silent:
  assumes "restoreOptions t = Some r" and "nameProperty t (ident d) = newName_of t r d"
  shows "updated (snd (save d t)) = updated t"
  using assms
  by (auto simp: save_def Let_def split: promise.splits if_splits)

lemma save_twice:
  assumes r: "restoreOptions t = Some r" and h: "has t (ident d)"
    and i: "\<not> injectedProperty t (ident d)" and f: "fst (save d t) = Fulfilled ()"
    and same: "ident d2 = ident d" "opt_name r d2 = opt_name r d"
  shows "updated (snd (save d2 (snd (save d t)))) = updated (snd (save d t))"
proof -
  let ?t = "snd (save d t)"
  have r': "restoreOptions ?t = Some r" using r by (simp add: save_frame)
  have "newName_of ?t r d2 = newName_of t r d"
    using same by (simp add: newName_of_def keyed_def save_frame Let_def)
  with save_fulfilled_name [OF r h i f] same
  have "nameProperty ?t (ident d2) = newName_of ?t r d2" by simp
  from save_same_name_silent [OF r' this] show ?thesis .
qed

text \<open>
  Claim C4, as the code has it. Without restore options, for an untracked instance and
  for an injected one, \<open>save\<close> does nothing. Otherwise it computes the new name. If a
  non-empty name was recorded and differs from the new one, the removal of the old entry
  is requested first; should that removal be rejected, \<open>save\<close> is rejected with the
  name tag left as it was, nothing written and no event. Once past the removal it sets
  the name tag to the new name, even an empty one, and writes the current arguments under
  the new name exactly when that name is not empty, after the removal. It emits
  \<open>updated\<close> exactly when the name changed and both connector calls, where made,
  were fulfilled. A save that follows a fulfilled save of the same object with the same
  computed name emits nothing.
\<close>

theorem save_persists_and_notifies:
  "(restoreOptions t = None \<or> \<not> has t (ident d) \<or> injectedProperty t (ident d)
      \<longrightarrow> save d t = (Fulfilled (), t))
   \<and> (\<forall>r. restoreOptions t = Some r \<and> has t (ident d) \<and> \<not> injectedProperty t (ident d) \<longrightarrow>
        (let obj = ident d;
             old = nameProperty t obj;
             new = newName_of t r d;
             stale = (old \<noteq> [] \<and> old \<noteq> new);
             removed = (stale \<longrightarrow> (\<exists>v. connector_remove r old = Fulfilled v));
             written = (new \<noteq> [] \<longrightarrow> (\<exists>v. connector_save r new (opt_args r d) = Fulfilled v));
             t' = snd (save d t)
         in calls t' = calls t @ (if stale then [ConnectorRemove old] else [])
                         @ (if removed \<and> new \<noteq> [] then [ConnectorSave new (opt_args r d)] else [])
          \<and> (removed \<longrightarrow> nameProperty t' = (nameProperty t)(obj := new))
          \<and> (\<not> removed \<longrightarrow> nameProperty t' = nameProperty t)
          \<and> updated t' = updated t @ (if removed \<and> written \<and> old \<noteq> new then [obj] else [])
          \<and> (fst (save d t) = Fulfilled ()) = (removed \<and> written))
        \<and> (\<forall>d2. fst (save d t) = Fulfilled () \<and> ident d2 = ident d
                   \<and> opt_name r d2 = opt_name r d
              \<longrightarrow> updated (snd (save d2 (snd (save d t)))) = updated (snd (save d t))))"
  using save_noop [of t d] save_effect [of t _ d] save_twice [of t _ d]
  by blast

theorem save_persists_and_notifies_witness:
  "restoreOptions two_widgets = Some sample_options \<and> has two_widgets 1
   \<and> \<not> injectedProperty two_widgets 1
   \<and> calls (snd (save (widget 1 ''b'') two_widgets))
       = calls two_widgets @ [ConnectorRemove ''nb:a'', ConnectorSave ''nb:b'' ''b'']
   \<and> nameProperty (snd (save (widget 1 ''b'') two_widgets)) 1 = ''nb:b''
   \<and> updated (snd (save (widget 1 ''b'') two_widgets)) = [1]
   \<and> updated (snd (save (widget 1 ''b'') (snd (save (widget 1 ''b'') two_widgets)))) = [1]
   \<and> save (widget 9 ''z'') two_widgets = (Fulfilled (), two_widgets)"
proof -
  note f = two_widgets_fields
  have n: "newName_of two_widgets sample_options (widget 1 ''b'') = ''nb:b''"
    using f by (simp add: newName_of_def keyed_def sample_defs)
  have a: "opt_args sample_options (widget 1 ''b'') = ''b''" by (simp add: sample_defs)
  have k: "connector_remove sample_options ''nb:a'' = Fulfilled []
         \<and> connector_save sample_options ''nb:b'' ''b'' = Fulfilled []"
    by (simp add: sample_defs)
  have i: "ident (widget 1 ''b'') = 1 \<and> ident (widget 9 ''z'') = 9" by (simp add: widget_def)
  have h: "restoreOptions two_widgets = Some sample_options \<and> has two_widgets 1
     \<and> \<not> injectedProperty two_widgets 1 \<and> \<not> has two_widgets 9"
    using f by (simp add: has_def)
  from save_persists_and_notifies [of two_widgets "widget 9 ''z''"] h i
  have z: "save (widget 9 ''z'') two_widgets = (Fulfilled (), two_widgets)" by simp
  from save_persists_and_notifies [of two_widgets "widget 1 ''b''"] h i
  have e: "let obj = 1;
             old = nameProperty two_widgets obj;
             new = newName_of two_widgets sample_options (widget 1 ''b'');
             stale = (old \<noteq> [] \<and> old \<noteq> new);
             removed = (stale \<longrightarrow> (\<exists>v. connector_remove sample_options old = Fulfilled v));
             written = (new \<noteq> [] \<longrightarrow> (\<exists>v. connector_save sample_options new
                           (opt_args sample_options (widget 1 ''b'')) = Fulfilled v));
             t' = snd (save (widget 1 ''b'') two_widgets)
         in calls t' = calls two_widgets @ (if stale then [ConnectorRemove old] else [])
                         @ (if removed \<and> new \<noteq> []
                            then [ConnectorSave new (opt_args sample_options (widget 1 ''b''))]
                            else [])
          \<and> (removed \<longrightarrow> nameProperty t' = (nameProperty two_widgets)(obj := new))
          \<and> (\<not> removed \<longrightarrow> nameProperty t' = nameProperty two_widgets)
          \<and> updated t' = updated two_widgets
               @ (if removed \<and> written \<and> old \<noteq> new then [obj] else [])
          \<and> (fst (save (widget 1 ''b'') two_widgets) = Fulfilled ()) = (removed \<and> written)"
    and t: "\<forall>d2. fst (save (widget 1 ''b'') two_widgets) = Fulfilled () \<and> ident d2 = 1
                   \<and> opt_name sample_options d2 = opt_name sample_options (widget 1 ''b'')
              \<longrightarrow> updated (snd (save d2 (snd (save (widget 1 ''b'') two_widgets))))
                    = updated (snd (save (widget 1 ''b'') two_widgets))"
    by simp_all
  have o: "nameProperty two_widgets 1 = ''nb:a'' \<and> updated two_widgets = []"
    using f by simp
  from e have e': "calls (snd (save (widget 1 ''b'') two_widgets))
       = calls two_widgets @ [ConnectorRemove ''nb:a'', ConnectorSave ''nb:b'' ''b'']
     \<and> nameProperty (snd (save (widget 1 ''b'') two_widgets)) 1 = ''nb:b''
     \<and> updated (snd (save (widget 1 ''b'') two_widgets)) = [1]
     \<and> fst (save (widget 1 ''b'') two_widgets) = Fulfilled ()"
    using n a k o by (simp add: Let_def)
  with t i have "updated (snd (save (widget 1 ''b'') (snd (save (widget 1 ''b'') two_widgets))))
      = [1]"
    by simp
  with h z e' show ?thesis by simp
qed

text \<open>
  Claim C4 as stated fails: the widget is tracked, not injected, restore options are
  set and its computed name has changed, but the connector rejects the removal of the old
  entry; \<open>save\<close> is rejected, the name tag still holds the old name and \<open>updated\<close> is
  not emitted.
\<close>

theorem save_keeps_name_after_failed_removal:
  "has unremovable (ident (widget 1 ''b'')) \<and> \<not> injectedProperty unremovable (ident (widget 1 ''b''))
   \<and> restoreOptions unremovable = Some failing_remove_options
   \<and> nameProperty unremovable (ident (widget 1 ''b'')) = ''nb:a''
   \<and> newName_of unremovable failing_remove_options (widget 1 ''b'') = ''nb:b''
   \<and> fst (save (widget 1 ''b'') unremovable) = Rejected (Error ''remove failed'')
   \<and> nameProperty (snd (save (widget 1 ''b'') unremovable)) (ident (widget 1 ''b'')) = ''nb:a''
   \<and> updated (snd (save (widget 1 ''b'') unremovable)) = updated unremovable"
  using unremovable_fields
  by (simp add: save_def has_def newName_of_def keyed_def Let_def sample_defs)

section \<open>The wrapper and the focus tracker\<close>

lemma emitted_append [simp]: "emitted xs (xs @ ys) = ys"
  by (simp add: emitted_def)

lemma emitted_same [simp]: "emitted xs xs = []"
  by (simp add: emitted_def)

lemma disposed_current_fields:
  assumes "current t = Some x" and "x \<in> set (disposedConnections t)"
  shows "current (instance_disposed x t) = None
       \<and> currentChanged (instance_disposed x t) = currentChanged t @ [None]
       \<and> instances (instance_disposed x t) = removeAll x (instances t)
       \<and> added (instance_disposed x t) = added t
       \<and> updated (instance_disposed x t) = updated t"
  using assms
  by (simp add: instance_disposed_def onInstanceDisposed_def Let_def split: option.splits)

lemma sync_after_null:
  assumes "\<not> wt_isDisposed w" and "added (instanceTracker w) = added t0"
    and "updated (instanceTracker w) = updated t0"
    and "currentChanged (instanceTracker w) = currentChanged t0 @ [None]"
  shows "sync t0 w = on_instances_currentChanged None w"
  using assms by (simp add: sync_def Let_def)

lemma reassert:
  assumes "\<not> wt_isDisposed w" and "focusCurrentWidget w = Some f"
    and "current (instanceTracker w) = None"
  shows "on_instances_currentChanged None w =
           (if has (instanceTracker w) f
            then w\<lparr> instanceTracker :=
                      (instanceTracker w)\<lparr> current := Some f,
                        currentChanged := currentChanged (instanceTracker w) @ [Some f] \<rparr>,
                    wt_currentChanged := wt_currentChanged w @ [Some f] \<rparr>
            else w)"
  using assms by (simp add: set_current_def Let_def)

text \<open>
  When the slot of the InstanceTracker runs for the current widget while the focus
  tracker reports another widget that is tracked, that widget becomes the
  \<open>currentWidget\<close> and is what the wrapper emits; null is not emitted.
\<close>

lemma instance_slot_reasserts_tracked_focus:
  assumes "\<not> wt_isDisposed w" and "focusCurrentWidget w = Some f"
    and "current (instanceTracker w) = Some x"
    and "x \<in> set (disposedConnections (instanceTracker w))"
    and "f \<noteq> x" and "has (instanceTracker w) f"
  shows "currentWidget (run_slot x InstanceSlot w) = Some f
       \<and> wt_currentChanged (run_slot x InstanceSlot w) = wt_currentChanged w @ [Some f]
       \<and> currentChanged (instanceTracker (run_slot x InstanceSlot w))
           = currentChanged (instanceTracker w) @ [None, Some f]"
proof -
  let ?t = "instanceTracker w"
  let ?w1 = "w\<lparr> instanceTracker := instance_disposed x ?t \<rparr>"
  note d = disposed_current_fields [OF assms(3,4)]
  have s: "run_slot x InstanceSlot w = on_instances_currentChanged None ?w1"
    unfolding run_slot.simps Let_def
    by (rule sync_after_null) (simp_all add: assms(1) d)
  have r: "on_instances_currentChanged None ?w1 =
           (if has (instanceTracker ?w1) f
            then ?w1\<lparr> instanceTracker :=
                      (instanceTracker ?w1)\<lparr> current := Some f,
                        currentChanged := currentChanged (instanceTracker ?w1) @ [Some f] \<rparr>,
                    wt_currentChanged := wt_currentChanged ?w1 @ [Some f] \<rparr>
            else ?w1)"
    by (rule reassert) (simp_all add: assms(1,2) d)
  have h: "has (instanceTracker ?w1) f"
    using assms(5,6) by (auto simp: has_def d)
  show ?thesis
    unfolding s r using h by (simp add: currentWidget_def d)
qed

text \<open>
  The disposal of the only widget of a wrapper, added and holding the focus: the focus
  tracker runs first and reports null from then on, and the wrapper emits null. The
  disposal of the current widget while another tracked widget holds the focus: that
  widget becomes the \<open>currentWidget\<close>.
\<close>

lemma last_widget_disposed:
  "disposedSlots added_and_focused = [(1, FocusSlot), (1, InstanceSlot)]
   \<and> wt_currentChanged added_and_focused = [Some 1]
   \<and> focusCurrentWidget (widget_disposed 1 added_and_focused) = None
   \<and> currentWidget (widget_disposed 1 added_and_focused) = None
   \<and> wt_currentChanged (widget_disposed 1 added_and_focused) = [Some 1, None]"
  by (simp add: added_and_focused_def wrapper_defs tracker_defs sample_defs Let_def)

lemma current_widget_disposed_focus_elsewhere:
  "focusCurrentWidget focused_elsewhere = Some 2
   \<and> currentWidget focused_elsewhere = Some 1
   \<and> wt_currentChanged focused_elsewhere = [Some 2, Some 1]
   \<and> currentWidget (widget_disposed 1 focused_elsewhere) = Some 2
   \<and> wt_currentChanged (widget_disposed 1 focused_elsewhere) = [Some 2, Some 1, Some 2]"
  by (simp add: focused_elsewhere_def wrapper_defs tracker_defs sample_defs Let_def)

text \<open>
  Claim C9. The wrapper is to put the widget the focus tracker reports in the place of
  a null \<open>current\<close>, so that \<open>currentWidget\<close> is that widget and not null. The code
  misses it for a widget that was injected and then added, took the focus and became
  current. At its disposal the slot of the InstanceTracker runs before the slot of the
  focus tracker: \<open>current\<close> changes to null while the focus tracker still reports the
  widget, the assignment of that widget is ignored by the setter (the widget has just
  left the tracked set), and the slot returns. Afterwards the tracked set is empty and
  \<open>currentWidget\<close> is null, and the wrapper has never emitted null, though the last
  tracked widget was disposed.
\<close>

theorem stale_focus_swallows_null:
  "disposedSlots reordered_slots = [(1, InstanceSlot), (1, FocusSlot)]
   \<and> currentWidget reordered_slots = Some 1
   \<and> wt_currentChanged reordered_slots = [Some 1]
   \<and> focusCurrentWidget (run_slot 1 InstanceSlot reordered_slots) = Some 1
   \<and> currentChanged (instanceTracker (run_slot 1 InstanceSlot reordered_slots))
       = [Some 1, None]
   \<and> currentWidget (run_slot 1 InstanceSlot reordered_slots) = None
   \<and> instances (instanceTracker (widget_disposed 1 reordered_slots)) = []
   \<and> focusCurrentWidget (widget_disposed 1 reordered_slots) = None
   \<and> currentWidget (widget_disposed 1 reordered_slots) = None
   \<and> wt_currentChanged (widget_disposed 1 reordered_slots) = [Some 1]"
  by (simp add: reordered_slots_def wrapper_defs tracker_defs sample_defs Let_def)

end
